theory Spec2Isabelle
  imports Main
begin

section \<open>The gateway registration agent (GatewayRegistryService, health-check variant)\<close>

text \<open>
  The class \<^verbatim>\<open>GatewayRegistryService\<close> with the periodic health check, the second
  document of \<^verbatim>\<open>services/repository-logger.service.ts\<close>. Its methods are
  \<^verbatim>\<open>async\<close>. JavaScript runs one synchronous segment at a time: a method runs from its
  entry to its first \<^verbatim>\<open>await\<close> of a network call, and its continuation runs when the
  call completes; between the two, other timers and completions may run. Each segment is
  a function on the agent's state here; the environment (timers firing, network calls
  completing, the framework's lifecycle hooks) is a list of events.
\<close>

subsection \<open>Values returned by \<^verbatim>\<open>response.json()\<close>\<close>

text \<open>
  A parsed JSON value. The members of an object are kept in the order of the text;
  of two members with the same name the later one is the object's property. Of a number
  the code observes only whether it is zero (its truthiness).
\<close>

datatype json =
    JNull
  | JBool bool
  | JNum int
  | JStr string
  | JArr "json list"
  | JObj "(string \<times> json) list"

text \<open>
  Property access \<^verbatim>\<open>v?.name\<close> for a name that no prototype defines
  (\<^verbatim>\<open>instances\<close>, \<^verbatim>\<open>instanceId\<close>): \<open>None\<close> is JavaScript's \<^verbatim>\<open>undefined\<close>.
\<close>

fun getProp :: "json \<Rightarrow> string \<Rightarrow> json option" where
  "getProp (JObj ps) name = map_of (rev ps) name"
| "getProp _ name = None"

fun truthy :: "json \<Rightarrow> bool" where
  "truthy JNull = False"
| "truthy (JBool b) = b"
| "truthy (JNum n) = (n \<noteq> 0)"
| "truthy (JStr s) = (s \<noteq> [])"
| "truthy (JArr xs) = True"
| "truthy (JObj ps) = True"

datatype error = NetworkError | HttpError nat | SyntaxError | TypeError

text \<open>\<^verbatim>\<open>Array.isArray(data) ? data : (data?.instances || [])\<close>\<close>

definition rawInstances :: "json \<Rightarrow> json" where
  "rawInstances data =
     (case data of
        JArr xs \<Rightarrow> data
      | _ \<Rightarrow> (case getProp data ''instances'' of
                None \<Rightarrow> JArr []
              | Some v \<Rightarrow> if truthy v then v else JArr []))"

text \<open>
  \<^verbatim>\<open>rawInstances.some((inst) => inst?.instanceId === this.config.instanceId)\<close>:
  only an array has \<^verbatim>\<open>some\<close>; on any other value the call throws a TypeError.
\<close>

definition someInstance :: "string \<Rightarrow> json \<Rightarrow> error + bool" where
  "someInstance iid raw =
     (case raw of
        JArr xs \<Rightarrow> Inr (list_ex (\<lambda>inst. getProp inst ''instanceId'' = Some (JStr iid)) xs)
      | _ \<Rightarrow> Inl TypeError)"

subsection \<open>Network calls and timers\<close>

text \<open>
  What \<^verbatim>\<open>fetch\<close> gives back: a response with its status and its body as
  \<^verbatim>\<open>response.json()\<close> would parse it (\<open>None\<close> when the body is not JSON), or a
  rejected promise (connection refused, DNS failure, abort).
\<close>

datatype response = HttpResponse nat "json option" | FetchError

definition ok :: "nat \<Rightarrow> bool" where
  "ok status = (200 \<le> status \<and> status \<le> 299)"

text \<open>Who awaits an attempt: \<^verbatim>\<open>onModuleInit\<close> goes on to \<^verbatim>\<open>startHealthCheck\<close>.\<close>

datatype caller = FromInit | Other

datatype request = RegisterReq caller | HeartbeatReq | VerifyReq | DeregisterReq

datatype callback = SendHeartbeatCb | RetryCb | VerifyRegistrationCb

record config =
  gatewayUrl :: string
  serviceName :: string
  baseUrl :: string
  instanceId :: string
  heartbeatInterval :: nat
  retryInterval :: nat
  healthCheckInterval :: nat
  enabled :: bool

text \<open>
  The fields of the class, then the runtime around it: the interval timers that are live
  (handle to callback), the next fresh handle, and the network calls in flight.
\<close>

record agent =
  registered :: bool
  isRetrying :: bool
  consecutiveFailures :: nat
  heartbeatTimer :: "nat option"
  retryTimer :: "nat option"
  healthCheckTimer :: "nat option"
  timers :: "nat \<rightharpoonup> callback"
  nextHandle :: nat
  inflight :: "request list"

definition maxConsecutiveFailures :: nat where
  "maxConsecutiveFailures = 3"

definition init :: agent where
  "init = \<lparr>registered = False, isRetrying = False, consecutiveFailures = 0,
           heartbeatTimer = None, retryTimer = None, healthCheckTimer = None,
           timers = Map.empty, nextHandle = 0, inflight = []\<rparr>"

definition setInterval :: "callback \<Rightarrow> agent \<Rightarrow> nat \<times> agent" where
  "setInterval cb s =
     (nextHandle s,
      s\<lparr>timers := (timers s)(nextHandle s \<mapsto> cb), nextHandle := Suc (nextHandle s)\<rparr>)"

definition clearInterval :: "nat \<Rightarrow> agent \<Rightarrow> agent" where
  "clearInterval h s = s\<lparr>timers := (timers s)(h := None)\<rparr>"

definition fetch :: "request \<Rightarrow> agent \<Rightarrow> agent" where
  "fetch req s = s\<lparr>inflight := inflight s @ [req]\<rparr>"

subsection \<open>The methods, one definition per synchronous segment\<close>

definition stopTimers :: "agent \<Rightarrow> agent" where
  "stopTimers s =
     (let s1 = (case retryTimer s of
                  Some h \<Rightarrow> (clearInterval h s)\<lparr>retryTimer := None\<rparr>
                | None \<Rightarrow> s);
          s2 = (case heartbeatTimer s1 of
                  Some h \<Rightarrow> (clearInterval h s1)\<lparr>heartbeatTimer := None\<rparr>
                | None \<Rightarrow> s1)
      in (case healthCheckTimer s2 of
            Some h \<Rightarrow> (clearInterval h s2)\<lparr>healthCheckTimer := None\<rparr>
          | None \<Rightarrow> s2))"

definition startHeartbeat :: "agent \<Rightarrow> agent" where
  "startHeartbeat s = (let (h, s') = setInterval SendHeartbeatCb s in s'\<lparr>heartbeatTimer := Some h\<rparr>)"

definition startHealthCheck :: "agent \<Rightarrow> agent" where
  "startHealthCheck s =
     (let (h, s') = setInterval VerifyRegistrationCb s in s'\<lparr>healthCheckTimer := Some h\<rparr>)"

text \<open>\<^verbatim>\<open>register\<close> after its \<^verbatim>\<open>fetch\<close>: it throws on a response that is not ok.\<close>

definition registerResume :: "response \<Rightarrow> error + unit" where
  "registerResume r =
     (case r of
        FetchError \<Rightarrow> Inl NetworkError
      | HttpResponse status body \<Rightarrow> if \<not> ok status then Inl (HttpError status) else Inr ())"

text \<open>\<^verbatim>\<open>attemptRegistration\<close> up to the \<^verbatim>\<open>fetch\<close> inside \<^verbatim>\<open>register\<close>.\<close>

definition attemptRegistration :: "caller \<Rightarrow> agent \<Rightarrow> agent" where
  "attemptRegistration c s = (if registered s then s else fetch (RegisterReq c) s)"

text \<open>
  \<^verbatim>\<open>attemptRegistration\<close> from the completion of the register call on: the rest of the
  \<^verbatim>\<open>try\<close> block or the \<^verbatim>\<open>catch\<close> block; then, for the attempt that \<^verbatim>\<open>onModuleInit\<close>
  awaits, the rest of \<^verbatim>\<open>onModuleInit\<close>.
\<close>

definition attemptRegistrationResume :: "caller \<Rightarrow> response \<Rightarrow> agent \<Rightarrow> agent" where
  "attemptRegistrationResume c r s =
     (let s' =
        (case registerResume r of
           Inr u \<Rightarrow>
             (let s1 = s\<lparr>registered := True, isRetrying := False\<rparr>;
                  s2 = (case retryTimer s1 of
                          Some h \<Rightarrow> (clearInterval h s1)\<lparr>retryTimer := None\<rparr>
                        | None \<Rightarrow> s1)
              in startHeartbeat s2)
         | Inl e \<Rightarrow>
             (let s1 = s\<lparr>registered := False\<rparr>
              in if \<not> isRetrying s1
                 then (let (h, s2) = setInterval RetryCb (s1\<lparr>isRetrying := True\<rparr>)
                       in s2\<lparr>retryTimer := Some h\<rparr>)
                 else s1))
      in if c = FromInit then startHealthCheck s' else s')"

definition onModuleInit :: "config \<Rightarrow> agent \<Rightarrow> agent" where
  "onModuleInit cfg s =
     (if \<not> enabled cfg then s
      else (let s' = attemptRegistration FromInit s
            in if registered s then startHealthCheck s' else s'))"

text \<open>The callback of the retry timer.\<close>

definition retryTick :: "agent \<Rightarrow> agent" where
  "retryTick s = (if \<not> registered s then attemptRegistration Other s else s)"

definition forceReRegister :: "agent \<Rightarrow> agent" where
  "forceReRegister s =
     (let s1 = s\<lparr>registered := False, consecutiveFailures := 0, isRetrying := False\<rparr>;
          s2 = (case heartbeatTimer s1 of
                  Some h \<Rightarrow> (clearInterval h s1)\<lparr>heartbeatTimer := None\<rparr>
                | None \<Rightarrow> s1)
      in attemptRegistration Other s2)"

definition handleHeartbeatFailure :: "agent \<Rightarrow> agent" where
  "handleHeartbeatFailure s =
     (let s1 = s\<lparr>consecutiveFailures := consecutiveFailures s + 1\<rparr>
      in if consecutiveFailures s1 \<ge> maxConsecutiveFailures then forceReRegister s1 else s1)"

definition sendHeartbeat :: "agent \<Rightarrow> agent" where
  "sendHeartbeat s =
     (if \<not> registered s then attemptRegistration Other s else fetch HeartbeatReq s)"

definition sendHeartbeatResume :: "response \<Rightarrow> agent \<Rightarrow> agent" where
  "sendHeartbeatResume r s =
     (case r of
        FetchError \<Rightarrow> handleHeartbeatFailure s
      | HttpResponse status body \<Rightarrow>
          if ok status then s\<lparr>consecutiveFailures := 0\<rparr>
          else if status = 404 then forceReRegister s
          else handleHeartbeatFailure s)"

definition verifyRegistration :: "agent \<Rightarrow> agent" where
  "verifyRegistration s = (if \<not> registered s then s else fetch VerifyReq s)"

definition verifyRegistrationResume :: "config \<Rightarrow> response \<Rightarrow> agent \<Rightarrow> agent" where
  "verifyRegistrationResume cfg r s =
     (case r of
        FetchError \<Rightarrow> s
      | HttpResponse status body \<Rightarrow>
          if \<not> ok status then s
          else (case body of
                  None \<Rightarrow> s
                | Some data \<Rightarrow>
                    (case someInstance (instanceId cfg) (rawInstances data) of
                       Inl e \<Rightarrow> s
                     | Inr found \<Rightarrow> if \<not> found then forceReRegister s else s)))"

definition onModuleDestroy :: "agent \<Rightarrow> agent" where
  "onModuleDestroy s =
     (let s1 = stopTimers s in if registered s1 then fetch DeregisterReq s1 else s1)"

text \<open>
  \<^verbatim>\<open>deregister\<close> after its \<^verbatim>\<open>fetch\<close>: any response, whatever its status, marks the
  agent unregistered; a rejected \<^verbatim>\<open>fetch\<close> throws past the assignment and
  \<^verbatim>\<open>onModuleDestroy\<close> logs it.
\<close>

definition deregisterResume :: "response \<Rightarrow> agent \<Rightarrow> agent" where
  "deregisterResume r s =
     (case r of
        FetchError \<Rightarrow> s
      | HttpResponse status body \<Rightarrow> s\<lparr>registered := False\<rparr>)"

subsection \<open>Events\<close>

text \<open>
  \<open>Tick h\<close>: the interval timer with handle \<open>h\<close> fires (nothing happens when it is no
  longer live). \<open>Complete i r\<close>: the \<open>i\<close>-th call in flight completes with \<open>r\<close>.
\<close>

datatype event = ModuleInit | ModuleDestroy | Tick nat | Complete nat response

definition step :: "config \<Rightarrow> event \<Rightarrow> agent \<Rightarrow> agent" where
  "step cfg ev s =
     (case ev of
        ModuleInit \<Rightarrow> onModuleInit cfg s
      | ModuleDestroy \<Rightarrow> onModuleDestroy s
      | Tick h \<Rightarrow>
          (case timers s h of
             None \<Rightarrow> s
           | Some SendHeartbeatCb \<Rightarrow> sendHeartbeat s
           | Some RetryCb \<Rightarrow> retryTick s
           | Some VerifyRegistrationCb \<Rightarrow> verifyRegistration s)
      | Complete i r \<Rightarrow>
          (if i < length (inflight s)
           then (let s' = s\<lparr>inflight := take i (inflight s) @ drop (Suc i) (inflight s)\<rparr>
                 in (case inflight s ! i of
                       RegisterReq c \<Rightarrow> attemptRegistrationResume c r s'
                     | HeartbeatReq \<Rightarrow> sendHeartbeatResume r s'
                     | VerifyReq \<Rightarrow> verifyRegistrationResume cfg r s'
                     | DeregisterReq \<Rightarrow> deregisterResume r s'))
           else s))"

fun run :: "config \<Rightarrow> event list \<Rightarrow> agent \<Rightarrow> agent" where
  "run cfg [] s = s"
| "run cfg (ev # evs) s = run cfg evs (step cfg ev s)"

subsection \<open>Sequential runs\<close>

text \<open>
  An operation whose network calls complete before the next operation begins: a timer
  fires, its call completes, and the register call that this completion may issue
  completes as well; or the module is destroyed and the deregister call completes.
  A sequential run initialises the module once and then performs such operations.
\<close>

datatype op = TickOp nat response response | StopOp response

fun opEvents :: "op \<Rightarrow> event list" where
  "opEvents (TickOp h r1 r2) = [Tick h, Complete 0 r1, Complete 0 r2]"
| "opEvents (StopOp r) = [ModuleDestroy, Complete 0 r]"

definition seqEvents :: "response \<Rightarrow> op list \<Rightarrow> event list" where
  "seqEvents r0 ops = [ModuleInit, Complete 0 r0] @ concat (map opEvents ops)"

subsection \<open>Predicates used in the statements\<close>

definition excl :: "agent \<Rightarrow> bool" where
  "excl s = (\<not> (registered s \<and> isRetrying s))"

text \<open>A heartbeat that fails without being a 404: a rejected \<^verbatim>\<open>fetch\<close> or another status.\<close>

definition genericFailure :: "response \<Rightarrow> bool" where
  "genericFailure r =
     (case r of
        FetchError \<Rightarrow> True
      | HttpResponse status body \<Rightarrow> \<not> ok status \<and> status \<noteq> 404)"

text \<open>The field of the class that holds the handle of a callback's timer.\<close>

definition handleOf :: "callback \<Rightarrow> agent \<Rightarrow> nat option" where
  "handleOf cb s =
     (case cb of
        SendHeartbeatCb \<Rightarrow> heartbeatTimer s
      | RetryCb \<Rightarrow> retryTimer s
      | VerifyRegistrationCb \<Rightarrow> healthCheckTimer s)"

text \<open>
  The live timers are exactly the ones whose handles the fields hold, handles are fresh,
  and the flags agree with the timers.
\<close>

definition tracked :: "agent \<Rightarrow> bool" where
  "tracked s =
     ((\<forall>h cb. timers s h = Some cb \<longleftrightarrow> handleOf cb s = Some h) \<and>
      (\<forall>h. timers s h \<noteq> None \<longrightarrow> h < nextHandle s) \<and>
      (registered s \<longrightarrow> retryTimer s = None) \<and>
      (heartbeatTimer s \<noteq> None \<longrightarrow> registered s) \<and>
      (retryTimer s \<noteq> None \<longrightarrow> isRetrying s))"

definition quiet :: "agent \<Rightarrow> bool" where
  "quiet s = (inflight s = [] \<and> tracked s)"

subsection \<open>Concrete inputs\<close>

definition exampleConfig :: config where
  "exampleConfig =
     \<lparr>gatewayUrl = ''http://localhost:8080'', serviceName = ''svc'',
      baseUrl = ''http://localhost:3000'', instanceId = ''svc-1'',
      heartbeatInterval = 5000, retryInterval = 15000, healthCheckInterval = 30000,
      enabled = True\<rparr>"

text \<open>The state after \<^verbatim>\<open>onModuleInit\<close> with a register call answered 200.\<close>

definition exampleRegistered :: agent where
  "exampleRegistered =
     \<lparr>registered = True, isRetrying = False, consecutiveFailures = 0,
      heartbeatTimer = Some 0, retryTimer = None, healthCheckTimer = Some (Suc 0),
      timers = [0 \<mapsto> SendHeartbeatCb, Suc 0 \<mapsto> VerifyRegistrationCb],
      nextHandle = Suc (Suc 0), inflight = []\<rparr>"

definition okResponse :: response where
  "okResponse = HttpResponse 200 None"

text \<open>
  A health check and a heartbeat are both in flight; the health check finds the instance
  absent and forces re-registration, the heartbeat then fails with 500, and the register
  call succeeds.
\<close>

definition overlapTrace :: "event list" where
  "overlapTrace =
     [ModuleInit, Complete 0 okResponse, Tick (Suc 0), Tick 0,
      Complete 0 (HttpResponse 200 (Some (JArr []))),
      Complete 0 (HttpResponse 500 None),
      Complete 0 okResponse]"

text \<open>
  A health check and a heartbeat are both in flight; the health check finds the instance
  absent and the heartbeat is answered 404, so \<^verbatim>\<open>forceReRegister\<close> runs twice with
  nothing in between.
\<close>

definition doubleForceTrace :: "event list" where
  "doubleForceTrace =
     [ModuleInit, Complete 0 okResponse, Tick (Suc 0), Tick 0,
      Complete 0 (HttpResponse 200 (Some (JArr []))),
      Complete 0 (HttpResponse 404 None)]"

section \<open>Properties\<close>

subsection \<open>Auxiliary facts\<close>

lemmas segment_defs =
  step_def onModuleInit_def onModuleDestroy_def attemptRegistration_def
  attemptRegistrationResume_def registerResume_def startHeartbeat_def startHealthCheck_def
  setInterval_def clearInterval_def fetch_def stopTimers_def retryTick_def forceReRegister_def
  handleHeartbeatFailure_def sendHeartbeat_def sendHeartbeatResume_def verifyRegistration_def
  verifyRegistrationResume_def deregisterResume_def maxConsecutiveFailures_def ok_def
  rawInstances_def someInstance_def


lemma complete_fetch:
  "step cfg (Complete (length (inflight s)) r) (fetch req s) =
     (case req of
        RegisterReq c \<Rightarrow> attemptRegistrationResume c r s
      | HeartbeatReq \<Rightarrow> sendHeartbeatResume r s
      | VerifyReq \<Rightarrow> verifyRegistrationResume cfg r s
      | DeregisterReq \<Rightarrow> deregisterResume r s)"
  by (simp add: step_def fetch_def Let_def split: request.splits)

lemma complete_idle: "inflight s = [] \<Longrightarrow> step cfg (Complete i r) s = s"
  by (simp add: step_def)

lemma handleOf_cases:
  "handleOf SendHeartbeatCb s = heartbeatTimer s"
  "handleOf RetryCb s = retryTimer s"
  "handleOf VerifyRegistrationCb s = healthCheckTimer s"
  by (simp_all add: handleOf_def)

lemma tracked_all: "(\<forall>cb. P cb) \<longleftrightarrow> P SendHeartbeatCb \<and> P RetryCb \<and> P VerifyRegistrationCb"
  by (metis callback.exhaust)

lemma tracked_distinct:
  assumes "tracked s"
  shows "retryTimer s = Some h \<Longrightarrow> healthCheckTimer s \<noteq> Some h"
    and "retryTimer s = Some h \<Longrightarrow> heartbeatTimer s \<noteq> Some h"
    and "healthCheckTimer s = Some h \<Longrightarrow> heartbeatTimer s \<noteq> Some h"
proof -
  have a: "timers s h = Some cb \<longleftrightarrow> handleOf cb s = Some h" for h cb
    using assms by (simp add: tracked_def)
  show "retryTimer s = Some h \<Longrightarrow> healthCheckTimer s \<noteq> Some h"
    using a[of h RetryCb] a[of h VerifyRegistrationCb] by (auto simp: handleOf_cases)
  show "retryTimer s = Some h \<Longrightarrow> heartbeatTimer s \<noteq> Some h"
    using a[of h RetryCb] a[of h SendHeartbeatCb] by (auto simp: handleOf_cases)
  show "healthCheckTimer s = Some h \<Longrightarrow> heartbeatTimer s \<noteq> Some h"
    using a[of h VerifyRegistrationCb] a[of h SendHeartbeatCb] by (auto simp: handleOf_cases)
qed

lemma quiet_attemptRegistrationResume:
  assumes "quiet s" and "\<not> registered s" and "c = FromInit \<longrightarrow> healthCheckTimer s = None"
  shows "quiet (attemptRegistrationResume c r s)"
proof -
  have t: "tracked s" using assms(1) by (simp add: quiet_def)
  note d = tracked_distinct[OF t]
  show ?thesis
    using assms d
    unfolding quiet_def tracked_def tracked_all handleOf_cases
    by (cases c; cases "registerResume r"; cases "isRetrying s")
       (auto simp: attemptRegistrationResume_def startHeartbeat_def startHealthCheck_def
          setInterval_def clearInterval_def Let_def less_Suc_eq split: option.splits)
qed

lemma quiet_forceReRegister:
  assumes "quiet s" and "registered s"
  shows "quiet (step cfg (Complete 0 r) (forceReRegister s))"
proof -
  define u where "u = (case heartbeatTimer s of
        Some h \<Rightarrow> s\<lparr>registered := False, consecutiveFailures := 0, isRetrying := False,
                    timers := (timers s)(h := None), heartbeatTimer := None\<rparr>
      | None \<Rightarrow> s\<lparr>registered := False, consecutiveFailures := 0, isRetrying := False\<rparr>)"
  have f: "forceReRegister s = fetch (RegisterReq Other) u"
    by (simp add: forceReRegister_def attemptRegistration_def clearInterval_def Let_def u_def
        split: option.splits)
  have i: "inflight u = []" using assms(1) by (simp add: u_def quiet_def split: option.splits)
  have t: "tracked s" using assms(1) by (simp add: quiet_def)
  note d = tracked_distinct[OF t]
  have q: "quiet u"
    using assms d unfolding quiet_def tracked_def tracked_all handleOf_cases u_def
    by (auto split: option.splits)
  have n: "\<not> registered u" by (simp add: u_def split: option.splits)
  have "step cfg (Complete 0 r) (forceReRegister s) = attemptRegistrationResume Other r u"
    using complete_fetch[of cfg u r "RegisterReq Other"] by (simp add: f i)
  then show ?thesis using quiet_attemptRegistrationResume[OF q n] by simp
qed


lemma quiet_counter: "quiet s \<Longrightarrow> quiet (s\<lparr>consecutiveFailures := k\<rparr>)"
  unfolding quiet_def tracked_def tracked_all handleOf_cases by simp

lemma stopTimers_fields:
  "heartbeatTimer (stopTimers s) = None"
  "retryTimer (stopTimers s) = None"
  "healthCheckTimer (stopTimers s) = None"
  "registered (stopTimers s) = registered s"
  "isRetrying (stopTimers s) = isRetrying s"
  "consecutiveFailures (stopTimers s) = consecutiveFailures s"
  "inflight (stopTimers s) = inflight s"
  by (simp_all add: stopTimers_def clearInterval_def Let_def split: option.splits)

lemma quiet_sendHeartbeatResume:
  assumes "quiet s" and "registered s"
  shows "quiet (step cfg (Complete 0 r2) (sendHeartbeatResume r1 s))"
proof -
  have idle: "quiet u \<Longrightarrow> quiet (step cfg (Complete 0 r2) u)" for u
    by (simp add: complete_idle quiet_def)
  have force: "quiet (step cfg (Complete 0 r2) (forceReRegister (s\<lparr>consecutiveFailures := k\<rparr>)))" for k
    using quiet_forceReRegister[OF quiet_counter[OF assms(1)], of k cfg r2] assms(2) by simp
  have force0: "quiet (step cfg (Complete 0 r2) (forceReRegister s))"
    using quiet_forceReRegister[OF assms] .
  have fail: "quiet (step cfg (Complete 0 r2) (handleHeartbeatFailure s))"
    using force idle[OF quiet_counter[OF assms(1)]]
    by (simp add: handleHeartbeatFailure_def Let_def)
  show ?thesis
    using fail force0 idle[OF quiet_counter[OF assms(1)]]
    by (simp add: sendHeartbeatResume_def split: response.splits)
qed

lemma quiet_verifyRegistrationResume:
  assumes "quiet s" and "registered s"
  shows "quiet (step cfg (Complete 0 r2) (verifyRegistrationResume cfg r1 s))"
proof -
  have idle: "quiet (step cfg (Complete 0 r2) s)"
    using assms(1) by (simp add: complete_idle quiet_def)
  show ?thesis
    using idle quiet_forceReRegister[OF assms, of cfg r2]
    by (simp add: verifyRegistrationResume_def split: response.splits option.splits sum.splits)
qed

lemma quiet_tick:
  assumes "quiet s"
  shows "quiet (run cfg [Tick h, Complete 0 r1, Complete 0 r2] s)"
proof -
  have i: "inflight s = []" and t: "tracked s" using assms by (simp_all add: quiet_def)
  have a: "timers s h = Some cb \<longleftrightarrow> handleOf cb s = Some h" for cb
    using t by (simp add: tracked_def)
  have idle: "quiet u \<Longrightarrow> quiet (step cfg (Complete 0 r) u)" for u r
    by (simp add: complete_idle quiet_def)
  have fin: "step cfg (Complete 0 r) (fetch req s) =
     (case req of
        RegisterReq c \<Rightarrow> attemptRegistrationResume c r s
      | HeartbeatReq \<Rightarrow> sendHeartbeatResume r s
      | VerifyReq \<Rightarrow> verifyRegistrationResume cfg r s
      | DeregisterReq \<Rightarrow> deregisterResume r s)" for r req
    using complete_fetch[of cfg s r req] by (simp add: i)
  show ?thesis
  proof (cases "timers s h")
    case None
    then show ?thesis using assms idle by (simp add: step_def)
  next
    case (Some cb)
    show ?thesis
    proof (cases cb)
      case SendHeartbeatCb
      then have "heartbeatTimer s = Some h" using Some a by (simp add: handleOf_cases)
      then have r: "registered s" using t by (simp add: tracked_def)
      have "step cfg (Tick h) s = fetch HeartbeatReq s"
        using Some SendHeartbeatCb r by (simp add: step_def sendHeartbeat_def)
      then show ?thesis
        using quiet_sendHeartbeatResume[OF assms r, of cfg r2 r1] by (simp add: fin)
    next
      case RetryCb
      then have "retryTimer s = Some h" using Some a by (simp add: handleOf_cases)
      then have r: "\<not> registered s" using t by (auto simp: tracked_def)
      have "step cfg (Tick h) s = fetch (RegisterReq Other) s"
        using Some RetryCb r by (simp add: step_def retryTick_def attemptRegistration_def)
      then show ?thesis
        using idle[OF quiet_attemptRegistrationResume[OF assms r, of Other r1], of r2]
        by (simp add: fin)
    next
      case VerifyRegistrationCb
      show ?thesis
      proof (cases "registered s")
        case True
        have "step cfg (Tick h) s = fetch VerifyReq s"
          using Some VerifyRegistrationCb True by (simp add: step_def verifyRegistration_def)
        then show ?thesis
          using quiet_verifyRegistrationResume[OF assms True, of cfg r2 r1] by (simp add: fin)
      next
        case False
        have "step cfg (Tick h) s = s"
          using Some VerifyRegistrationCb False by (simp add: step_def verifyRegistration_def)
        then show ?thesis using assms idle by simp
      qed
    qed
  qed
qed

lemma quiet_stopTimers:
  assumes "quiet s"
  shows "quiet (stopTimers s)" and "registered (stopTimers s) = registered s"
proof -
  have t: "tracked s" using assms by (simp add: quiet_def)
  note d = tracked_distinct[OF t]
  show "quiet (stopTimers s)"
    using assms d unfolding quiet_def tracked_def tracked_all handleOf_cases
    by (cases "retryTimer s"; cases "heartbeatTimer s"; cases "healthCheckTimer s")
       (auto simp: stopTimers_def clearInterval_def Let_def)
  show "registered (stopTimers s) = registered s"
    by (simp add: stopTimers_def clearInterval_def Let_def split: option.splits)
qed

lemma quiet_stop:
  assumes "quiet s"
  shows "quiet (run cfg [ModuleDestroy, Complete 0 r] s)"
proof -
  let ?u = "stopTimers s"
  have q: "quiet ?u" using quiet_stopTimers(1)[OF assms] .
  then have i: "inflight ?u = []" by (simp add: quiet_def)
  have d: "quiet (deregisterResume r ?u)"
    using q stopTimers_fields(1)[of s]
    unfolding quiet_def tracked_def tracked_all handleOf_cases
    by (cases r) (simp_all add: deregisterResume_def)
  show ?thesis
  proof (cases "registered ?u")
    case True
    then have "step cfg ModuleDestroy s = fetch DeregisterReq ?u"
      by (simp add: step_def onModuleDestroy_def Let_def)
    then show ?thesis
      using complete_fetch[of cfg ?u r DeregisterReq] d by (simp add: i)
  next
    case False
    then have "step cfg ModuleDestroy s = ?u"
      by (simp add: step_def onModuleDestroy_def Let_def)
    then show ?thesis using q by (simp add: complete_idle i)
  qed
qed

lemma quiet_init: "quiet init"
  by (simp add: quiet_def tracked_def handleOf_def init_def split: callback.splits)

lemma quiet_start: "quiet (run cfg [ModuleInit, Complete 0 r] init)"
proof (cases "enabled cfg")
  case True
  have n: "\<not> registered init" and h: "FromInit = FromInit \<longrightarrow> healthCheckTimer init = None"
    and i: "inflight init = []"
    by (simp_all add: init_def)
  have "step cfg ModuleInit init = fetch (RegisterReq FromInit) init"
    using True n by (simp add: step_def onModuleInit_def attemptRegistration_def Let_def)
  then show ?thesis
    using complete_fetch[of cfg init r "RegisterReq FromInit"]
      quiet_attemptRegistrationResume[OF quiet_init n h, of r]
    by (simp add: i)
next
  case False
  then have "step cfg ModuleInit init = init" by (simp add: step_def onModuleInit_def)
  then show ?thesis using quiet_init by (simp add: complete_idle init_def)
qed

lemma run_append: "run cfg (xs @ ys) s = run cfg ys (run cfg xs s)"
  by (induction xs arbitrary: s) simp_all

lemma quiet_ops: "quiet s \<Longrightarrow> quiet (run cfg (concat (map opEvents ops)) s)"
proof (induction ops arbitrary: s)
  case Nil
  then show ?case by simp
next
  case (Cons x ops)
  have "quiet (run cfg (opEvents x) s)"
    using Cons.prems quiet_tick quiet_stop by (cases x) simp_all
  then show ?case using Cons.IH by (simp add: run_append)
qed

lemma quiet_seq: "quiet (run cfg (seqEvents r0 ops) init)"
  unfolding seqEvents_def run_append using quiet_ops[OF quiet_start] .

lemma excl_fetch: "excl (fetch r s) = excl s"
  by (simp add: excl_def fetch_def)

lemma excl_attemptRegistration: "excl (attemptRegistration c s) = excl s"
  by (simp add: excl_def attemptRegistration_def fetch_def)

lemma excl_startHeartbeat: "excl (startHeartbeat s) = excl s"
  by (simp add: excl_def startHeartbeat_def setInterval_def)

lemma excl_startHealthCheck: "excl (startHealthCheck s) = excl s"
  by (simp add: excl_def startHealthCheck_def setInterval_def)

lemma excl_attemptRegistrationResume: "excl (attemptRegistrationResume c r s)"
  by (simp add: attemptRegistrationResume_def Let_def excl_startHealthCheck excl_startHeartbeat
        split: sum.splits option.splits)
     (simp add: excl_def setInterval_def clearInterval_def)

lemma excl_forceReRegister: "excl (forceReRegister s)"
  by (simp add: forceReRegister_def Let_def excl_attemptRegistration split: option.splits)
     (simp add: excl_def clearInterval_def)

lemma excl_handleHeartbeatFailure: "excl s \<Longrightarrow> excl (handleHeartbeatFailure s)"
  by (simp add: handleHeartbeatFailure_def Let_def excl_forceReRegister) (simp add: excl_def)

lemma excl_sendHeartbeatResume: "excl s \<Longrightarrow> excl (sendHeartbeatResume r s)"
  by (simp add: sendHeartbeatResume_def excl_forceReRegister excl_handleHeartbeatFailure
        split: response.splits)
     (simp add: excl_def)

lemma excl_verifyRegistrationResume: "excl s \<Longrightarrow> excl (verifyRegistrationResume cfg r s)"
  by (simp add: verifyRegistrationResume_def excl_forceReRegister
        split: response.splits option.splits sum.splits)

lemma excl_deregisterResume: "excl s \<Longrightarrow> excl (deregisterResume r s)"
  by (simp add: deregisterResume_def split: response.splits) (simp add: excl_def)

lemma excl_stopTimers: "excl (stopTimers s) = excl s"
  by (simp add: excl_def stopTimers_fields)

lemma excl_onModuleDestroy: "excl (onModuleDestroy s) = excl s"
  by (simp add: onModuleDestroy_def Let_def excl_fetch excl_stopTimers)

lemma excl_onModuleInit: "excl (onModuleInit cfg s) = excl s"
  by (simp add: onModuleInit_def Let_def excl_attemptRegistration excl_startHealthCheck)

lemma excl_tick: "excl s \<Longrightarrow> excl (step cfg (Tick h) s)"
  by (simp add: step_def sendHeartbeat_def retryTick_def verifyRegistration_def
        excl_attemptRegistration excl_fetch split: option.splits callback.splits)

lemma excl_inflight: "excl (s\<lparr>inflight := xs\<rparr>) = excl s"
  by (simp add: excl_def)

lemma excl_complete: "excl s \<Longrightarrow> excl (step cfg (Complete i r) s)"
  by (simp add: step_def Let_def excl_attemptRegistrationResume excl_sendHeartbeatResume
        excl_verifyRegistrationResume excl_deregisterResume excl_inflight split: request.splits)

lemma excl_step: "excl s \<Longrightarrow> excl (step cfg ev s)"
proof (cases ev)
  case ModuleInit
  then show ?thesis if "excl s" using that by (simp add: step_def excl_onModuleInit)
next
  case ModuleDestroy
  then show ?thesis if "excl s" using that by (simp add: step_def excl_onModuleDestroy)
next
  case (Tick h)
  then show ?thesis if "excl s" using that excl_tick by simp
next
  case (Complete i r)
  then show ?thesis if "excl s" using that excl_complete by simp
qed

lemma excl_run: "excl s \<Longrightarrow> excl (run cfg evs s)"
  by (induction evs arbitrary: s) (simp_all add: excl_step)

lemma forceReRegister_fields:
  "\<not> registered (forceReRegister s)"
  "heartbeatTimer (forceReRegister s) = None"
  "consecutiveFailures (forceReRegister s) = 0"
  "\<not> isRetrying (forceReRegister s)"
  "inflight (forceReRegister s) = inflight s @ [RegisterReq Other]"
  "heartbeatTimer s = Some h' \<Longrightarrow> timers (forceReRegister s) h' = None"
  "retryTimer (forceReRegister s) = retryTimer s"
  "healthCheckTimer (forceReRegister s) = healthCheckTimer s"
  "nextHandle (forceReRegister s) = nextHandle s"
  by (simp_all add: forceReRegister_def attemptRegistration_def fetch_def clearInterval_def Let_def
      split: option.splits)

lemma forceReRegister_counter:
  "forceReRegister (s\<lparr>consecutiveFailures := k\<rparr>) = forceReRegister s"
  by (simp add: forceReRegister_def attemptRegistration_def fetch_def clearInterval_def Let_def
      split: option.splits)

lemma exampleRegistered_facts:
  "registered exampleRegistered"
  "consecutiveFailures exampleRegistered = 0"
  "timers exampleRegistered 0 = Some SendHeartbeatCb"
  "timers exampleRegistered (Suc 0) = Some VerifyRegistrationCb"
  "inflight exampleRegistered = []"
  "heartbeatTimer exampleRegistered = Some 0"
  by (simp_all add: exampleRegistered_def)

lemma resume_failure_arms:
  assumes "\<not> isRetrying s" and "registerResume r = Inl e"
  shows "\<not> registered (attemptRegistrationResume c r s)"
    and "isRetrying (attemptRegistrationResume c r s)"
    and "retryTimer (attemptRegistrationResume c r s) = Some (nextHandle s)"
    and "timers (attemptRegistrationResume c r s) (nextHandle s) = Some RetryCb"
    and "inflight (attemptRegistrationResume c r s) = inflight s"
    and "nextHandle s < nextHandle (attemptRegistrationResume c r s)"
  using assms
  by (simp_all add: attemptRegistrationResume_def startHealthCheck_def setInterval_def Let_def)

lemma resume_failure_retrying:
  assumes "isRetrying s" and "\<not> registered s" and "registerResume r = Inl e"
  shows "attemptRegistrationResume Other r s = s"
  using assms by (simp add: attemptRegistrationResume_def Let_def)

lemma resume_success:
  assumes "registerResume r = Inr ()"
  shows "registered (attemptRegistrationResume Other r s)"
    and "\<not> isRetrying (attemptRegistrationResume Other r s)"
    and "retryTimer (attemptRegistrationResume Other r s) = None"
    and "heartbeatTimer (attemptRegistrationResume Other r s) = Some (nextHandle s)"
    and "timers (attemptRegistrationResume Other r s) (nextHandle s) = Some SendHeartbeatCb"
    and "retryTimer s = Some h \<Longrightarrow> h \<noteq> nextHandle s \<Longrightarrow>
         timers (attemptRegistrationResume Other r s) h = None"
  using assms
  by (simp_all add: attemptRegistrationResume_def startHeartbeat_def setInterval_def
      clearInterval_def Let_def split: option.splits)

subsection \<open>C1: registered and isRetrying are never both true\<close>

text \<open>
  C1. From the initial state, after every sequence of events (module initialisation and
  destruction, timer ticks, and completions of register, heartbeat, verify and deregister
  calls with any outcome, in any interleaving) the fields \<^verbatim>\<open>registered\<close> and
  \<^verbatim>\<open>isRetrying\<close> are not both true. Every prefix of a sequence is a sequence, so this
  holds at every point between operations. The completion of a registration attempt and
  a forced re-registration establish it from any state.
\<close>

theorem registered_isRetrying_never_both:
  "\<not> (registered (run cfg evs init) \<and> isRetrying (run cfg evs init)) \<and>
   \<not> (registered (attemptRegistrationResume c r s) \<and>
      isRetrying (attemptRegistrationResume c r s)) \<and>
   \<not> (registered (forceReRegister s) \<and> isRetrying (forceReRegister s))"
proof -
  have "excl init" by (simp add: excl_def init_def)
  then have "excl (run cfg evs init)" by (rule excl_run)
  then show ?thesis
    using excl_attemptRegistrationResume[of c r s] excl_forceReRegister[of s]
    by (simp add: excl_def)
qed

subsection \<open>C2: onModuleDestroy when the deregister call is rejected\<close>




subsection \<open>C3: a heartbeat answered 404 forces re-registration at once\<close>

text \<open>
  C3. While \<^verbatim>\<open>registered\<close> is true, a heartbeat tick issues the heartbeat POST; when
  that call is answered 404 the state is that of \<^verbatim>\<open>forceReRegister\<close>: \<^verbatim>\<open>registered\<close>
  is false, the heartbeat handle is cleared and its timer is no longer live, and a register
  call is in flight without any timer having fired. The failure counter plays no part: the
  result is the same for every value \<open>k\<close> of \<^verbatim>\<open>consecutiveFailures\<close>, and the counter
  is 0 afterwards.
\<close>

theorem heartbeat_not_found_forces_reregistration:
  assumes "registered s" and "timers s h = Some SendHeartbeatCb"
  shows "inflight (step cfg (Tick h) s) = inflight s @ [HeartbeatReq] \<and>
    (let s' = run cfg [Tick h, Complete (length (inflight s)) (HttpResponse 404 body)] s in
       s' = forceReRegister s \<and>
       \<not> registered s' \<and>
       heartbeatTimer s' = None \<and>
       (\<forall>h'. heartbeatTimer s = Some h' \<longrightarrow> timers s' h' = None) \<and>
       inflight s' = inflight s @ [RegisterReq Other] \<and>
       consecutiveFailures s' = 0 \<and>
       s' = run cfg [Tick h, Complete (length (inflight s)) (HttpResponse 404 body)]
              (s\<lparr>consecutiveFailures := k\<rparr>))"
proof -
  have t: "step cfg (Tick h) s = fetch HeartbeatReq s"
    using assms by (simp add: step_def sendHeartbeat_def)
  have tk: "step cfg (Tick h) (s\<lparr>consecutiveFailures := k\<rparr>) =
      fetch HeartbeatReq (s\<lparr>consecutiveFailures := k\<rparr>)"
    using assms by (simp add: step_def sendHeartbeat_def)
  have nf: "sendHeartbeatResume (HttpResponse 404 body) u = forceReRegister u" for u
    by (simp add: sendHeartbeatResume_def ok_def)
  have r: "run cfg [Tick h, Complete (length (inflight s)) (HttpResponse 404 body)] s =
      forceReRegister s"
    by (simp add: t complete_fetch nf)
  have rk: "run cfg [Tick h, Complete (length (inflight s)) (HttpResponse 404 body)]
      (s\<lparr>consecutiveFailures := k\<rparr>) = forceReRegister s"
    using complete_fetch[of cfg "s\<lparr>consecutiveFailures := k\<rparr>" "HttpResponse 404 body" HeartbeatReq]
    by (simp add: tk nf forceReRegister_counter)
  show ?thesis
    unfolding Let_def r rk by (simp add: t fetch_def forceReRegister_fields)
qed

theorem heartbeat_not_found_witness:
  "registered exampleRegistered \<and> timers exampleRegistered 0 = Some SendHeartbeatCb \<and>
   \<not> registered (run exampleConfig [Tick 0, Complete 0 (HttpResponse 404 None)] exampleRegistered) \<and>
   timers (run exampleConfig [Tick 0, Complete 0 (HttpResponse 404 None)] exampleRegistered) 0 = None \<and>
   inflight (run exampleConfig [Tick 0, Complete 0 (HttpResponse 404 None)] exampleRegistered) =
     [RegisterReq Other]"
  using heartbeat_not_found_forces_reregistration[of exampleRegistered 0 exampleConfig None 0]
  by (simp add: segment_defs exampleRegistered_def Let_def)

subsection \<open>C4: three generic heartbeat failures force re-registration, two do not\<close>

text \<open>
  C4. Starting registered with \<^verbatim>\<open>consecutiveFailures\<close> 0, heartbeat ticks that end in a
  generic failure (a rejected call, or a status that is neither 2xx nor 404) only count
  after the first and the second one: the state is unchanged but for the counter, the
  agent is still registered and no register call was issued. The third one performs
  \<^verbatim>\<open>forceReRegister\<close>.
\<close>

theorem heartbeat_failure_threshold:
  assumes "registered s" and "consecutiveFailures s = 0" and "timers s h = Some SendHeartbeatCb"
    and "genericFailure r1" and "genericFailure r2" and "genericFailure r3"
    and "n = length (inflight s)"
  shows "(let s1 = run cfg [Tick h, Complete n r1] s;
              s2 = run cfg [Tick h, Complete n r2] s1;
              s3 = run cfg [Tick h, Complete n r3] s2
          in s1 = s\<lparr>consecutiveFailures := 1\<rparr> \<and>
             s2 = s\<lparr>consecutiveFailures := 2\<rparr> \<and> registered s2 \<and> inflight s2 = inflight s \<and>
             s3 = forceReRegister s \<and> \<not> registered s3 \<and> heartbeatTimer s3 = None \<and>
             inflight s3 = inflight s @ [RegisterReq Other])"
proof -
  have t: "step cfg (Tick h) (s\<lparr>consecutiveFailures := k\<rparr>) =
      fetch HeartbeatReq (s\<lparr>consecutiveFailures := k\<rparr>)" for k
    using assms by (simp add: step_def sendHeartbeat_def)
  have g: "sendHeartbeatResume r u = handleHeartbeatFailure u" if "genericFailure r" for r u
    using that by (simp add: sendHeartbeatResume_def genericFailure_def split: response.splits)
  have c: "run cfg [Tick h, Complete n r] (s\<lparr>consecutiveFailures := k\<rparr>) =
      handleHeartbeatFailure (s\<lparr>consecutiveFailures := k\<rparr>)"
    if "genericFailure r" for r k
    using complete_fetch[of cfg "s\<lparr>consecutiveFailures := k\<rparr>" r HeartbeatReq] that assms(7)
    by (simp add: t g)
  have s0: "s\<lparr>consecutiveFailures := 0\<rparr> = s" using assms(2) by simp
  have h1: "run cfg [Tick h, Complete n r1] s = s\<lparr>consecutiveFailures := 1\<rparr>"
    using c[OF assms(4), of 0]
    by (simp add: s0 handleHeartbeatFailure_def maxConsecutiveFailures_def assms(2))
  have h2: "run cfg [Tick h, Complete n r2] (s\<lparr>consecutiveFailures := 1\<rparr>) =
      s\<lparr>consecutiveFailures := 2\<rparr>"
    using c[OF assms(5), of 1] by (simp add: handleHeartbeatFailure_def maxConsecutiveFailures_def)
  have h3: "run cfg [Tick h, Complete n r3] (s\<lparr>consecutiveFailures := 2\<rparr>) = forceReRegister s"
    using c[OF assms(6), of 2]
    by (simp add: handleHeartbeatFailure_def maxConsecutiveFailures_def forceReRegister_counter)
  show ?thesis
    unfolding Let_def h1 h2 h3 using assms(1) by (simp add: forceReRegister_fields)
qed

theorem heartbeat_failure_threshold_witness:
  "registered exampleRegistered \<and> consecutiveFailures exampleRegistered = 0 \<and>
   timers exampleRegistered 0 = Some SendHeartbeatCb \<and>
   genericFailure FetchError \<and> genericFailure (HttpResponse 500 None) \<and>
   registered (run exampleConfig
      [Tick 0, Complete 0 FetchError, Tick 0, Complete 0 (HttpResponse 500 None)]
      exampleRegistered) \<and>
   \<not> registered (run exampleConfig
      [Tick 0, Complete 0 FetchError, Tick 0, Complete 0 (HttpResponse 500 None),
       Tick 0, Complete 0 FetchError]
      exampleRegistered)"
  using heartbeat_failure_threshold[of exampleRegistered 0 FetchError "HttpResponse 500 None"
      FetchError 0 exampleConfig]
  by (simp add: segment_defs genericFailure_def exampleRegistered_def Let_def)

subsection \<open>C5: the outcomes of a health check\<close>

text \<open>
  C5. On a health-check tick while \<^verbatim>\<open>registered\<close> is true: when the GET is rejected or
  answered with a status that is not 2xx, the state is unchanged, so the agent is still
  registered and no call is in flight that was not before; when it is answered 2xx with a
  body that is an array, or an object whose \<^verbatim>\<open>instances\<close> is an array, the state is
  unchanged if some record of that array has this instance's \<^verbatim>\<open>instanceId\<close>; otherwise
  forced re-registration occurs: \<^verbatim>\<open>registered\<close> and \<^verbatim>\<open>isRetrying\<close> are false, the
  counter is 0, the heartbeat handle is cleared and its timer is no longer live, and a
  register call has been issued and is in flight.
\<close>

theorem health_check_outcomes:
  assumes "registered s" and "timers s h = Some VerifyRegistrationCb" and "n = length (inflight s)"
  shows "(r = FetchError \<or> (\<exists>status body. r = HttpResponse status body \<and> \<not> ok status)
            \<longrightarrow> run cfg [Tick h, Complete n r] s = s \<and>
                 registered (run cfg [Tick h, Complete n r] s) \<and>
                 inflight (run cfg [Tick h, Complete n r] s) = inflight s) \<and>
         (ok status \<and>
          (data = JArr xs \<or> (data = JObj ps \<and> getProp data ''instances'' = Some (JArr xs)))
            \<longrightarrow> (let s' = run cfg [Tick h, Complete n (HttpResponse status (Some data))] s
                 in s' =
                      (if list_ex (\<lambda>inst. getProp inst ''instanceId'' = Some (JStr (instanceId cfg))) xs
                       then s else forceReRegister s) \<and>
                    (if list_ex (\<lambda>inst. getProp inst ''instanceId'' = Some (JStr (instanceId cfg))) xs
                     then registered s' \<and> inflight s' = inflight s
                     else \<not> registered s' \<and> \<not> isRetrying s' \<and> consecutiveFailures s' = 0 \<and>
                          heartbeatTimer s' = None \<and>
                          (\<forall>h'. heartbeatTimer s = Some h' \<longrightarrow> timers s' h' = None) \<and>
                          inflight s' = inflight s @ [RegisterReq Other] \<and>
                          s' \<noteq> s)))"
proof -
  have t: "step cfg (Tick h) s = fetch VerifyReq s"
    using assms by (simp add: step_def verifyRegistration_def)
  have c: "run cfg [Tick h, Complete n r] s = verifyRegistrationResume cfg r s" for r
    using complete_fetch[of cfg s r VerifyReq] assms(3) by (simp add: t)
  have unreachable: "verifyRegistrationResume cfg r s = s"
    if "r = FetchError \<or> (\<exists>status body. r = HttpResponse status body \<and> \<not> ok status)"
    using that by (auto simp: verifyRegistrationResume_def)
  have listed: "verifyRegistrationResume cfg (HttpResponse status (Some data)) s =
      (if list_ex (\<lambda>inst. getProp inst ''instanceId'' = Some (JStr (instanceId cfg))) xs
       then s else forceReRegister s)"
    if "ok status"
      and "data = JArr xs \<or> (data = JObj ps \<and> getProp data ''instances'' = Some (JArr xs))"
    using that by (auto simp: verifyRegistrationResume_def rawInstances_def someInstance_def)
  have differs: "forceReRegister s \<noteq> s"
  proof
    assume "forceReRegister s = s"
    then have "registered (forceReRegister s) = registered s" by simp
    then show False using assms(1) by (simp add: forceReRegister_fields)
  qed
  show ?thesis
    unfolding c Let_def
    using unreachable listed differs assms(1)
    by (simp add: forceReRegister_fields)
qed

theorem health_check_outcomes_witness:
  "registered exampleRegistered \<and> timers exampleRegistered (Suc 0) = Some VerifyRegistrationCb \<and>
   ok 200 \<and> \<not> ok 503 \<and>
   run exampleConfig [Tick (Suc 0), Complete 0 (HttpResponse 503 None)] exampleRegistered =
     exampleRegistered \<and>
   run exampleConfig
     [Tick (Suc 0),
      Complete 0 (HttpResponse 200
        (Some (JObj [(''instances'', JArr [JObj [(''instanceId'', JStr ''svc-1'')]])])))]
     exampleRegistered = exampleRegistered \<and>
   run exampleConfig
     [Tick (Suc 0),
      Complete 0 (HttpResponse 200 (Some (JArr [JObj [(''instanceId'', JStr ''svc-2'')]])))]
     exampleRegistered = forceReRegister exampleRegistered \<and>
   \<not> registered (run exampleConfig
     [Tick (Suc 0),
      Complete 0 (HttpResponse 200 (Some (JArr [JObj [(''instanceId'', JStr ''svc-2'')]])))]
     exampleRegistered) \<and>
   timers (run exampleConfig
     [Tick (Suc 0),
      Complete 0 (HttpResponse 200 (Some (JArr [JObj [(''instanceId'', JStr ''svc-2'')]])))]
     exampleRegistered) 0 = None \<and>
   inflight (run exampleConfig
     [Tick (Suc 0),
      Complete 0 (HttpResponse 200 (Some (JArr [JObj [(''instanceId'', JStr ''svc-2'')]])))]
     exampleRegistered) = [RegisterReq Other]"
proof -
  have h: "registered exampleRegistered"
      "timers exampleRegistered (Suc 0) = Some VerifyRegistrationCb"
      "0 = length (inflight exampleRegistered)"
    by (simp_all add: exampleRegistered_def)
  have k: "ok 200" "\<not> ok 503" by (simp_all add: ok_def)
  have e: "inflight exampleRegistered = []" "heartbeatTimer exampleRegistered = Some 0"
    by (simp_all add: exampleRegistered_def)
  have iid: "instanceId exampleConfig = ''svc-1''" by (simp add: exampleConfig_def)
  show ?thesis
    using h(1,2) k
      health_check_outcomes[OF h, of "HttpResponse 503 None" exampleConfig 200 "JArr []" "[]" "[]"]
      health_check_outcomes[OF h, of FetchError exampleConfig 200
        "JObj [(''instances'', JArr [JObj [(''instanceId'', JStr ''svc-1'')]])]"
        "[JObj [(''instanceId'', JStr ''svc-1'')]]"
        "[(''instances'', JArr [JObj [(''instanceId'', JStr ''svc-1'')]])]"]
      health_check_outcomes[OF h, of FetchError exampleConfig 200
        "JArr [JObj [(''instanceId'', JStr ''svc-2'')]]"
        "[JObj [(''instanceId'', JStr ''svc-2'')]]" "[]"]
    by (simp (no_asm_use) del: run.simps add: iid e Let_def) blast
qed

subsection \<open>C6: forced re-registration twice, and the number of live timers\<close>

text \<open>
  C6 says that two forced re-registrations in immediate succession leave at most one
  register call in flight and one live heartbeat timer, because arming cancels a live
  timer first. In the code each \<^verbatim>\<open>forceReRegister\<close> issues its own register call, and
  \<^verbatim>\<open>startHeartbeat\<close> overwrites the handle without cancelling: when a health check finds
  the instance absent while a heartbeat is answered 404, two register calls are in flight,
  and when both succeed two heartbeat timers are live, of which the agent holds one.
\<close>

theorem double_forced_reregistration_counterexample:
  "run exampleConfig doubleForceTrace init = forceReRegister (forceReRegister exampleRegistered) \<and>
   inflight (run exampleConfig doubleForceTrace init) = [RegisterReq Other, RegisterReq Other] \<and>
   timers (run exampleConfig (doubleForceTrace @ [Complete 0 okResponse, Complete 0 okResponse]) init)
     (Suc (Suc 0)) = Some SendHeartbeatCb \<and>
   timers (run exampleConfig (doubleForceTrace @ [Complete 0 okResponse, Complete 0 okResponse]) init)
     (Suc (Suc (Suc 0))) = Some SendHeartbeatCb \<and>
   heartbeatTimer
     (run exampleConfig (doubleForceTrace @ [Complete 0 okResponse, Complete 0 okResponse]) init) =
     Some (Suc (Suc (Suc 0)))"
  by (simp add: segment_defs doubleForceTrace_def okResponse_def init_def exampleConfig_def
      exampleRegistered_def Let_def)

text \<open>
  C6, as the code has it. Two calls of \<^verbatim>\<open>forceReRegister\<close> put two register calls in
  flight, and \<^verbatim>\<open>startHeartbeat\<close> adds a timer without cancelling one. In every
  sequential run (the module is initialised once, then each timer tick or module
  destruction completes its network calls before the next operation begins) no call is in
  flight between operations, the live timers are exactly those whose handles the agent
  holds, and so at most one timer of each kind is live.
\<close>

theorem sequential_runs_track_timers:
  "inflight (forceReRegister (forceReRegister s)) =
     inflight s @ [RegisterReq Other, RegisterReq Other] \<and>
   timers (startHeartbeat s) = (timers s)(nextHandle s \<mapsto> SendHeartbeatCb) \<and>
   inflight (run cfg (seqEvents r0 ops) init) = [] \<and>
   (\<forall>h cb. timers (run cfg (seqEvents r0 ops) init) h = Some cb \<longleftrightarrow>
            handleOf cb (run cfg (seqEvents r0 ops) init) = Some h) \<and>
   (\<forall>h h' cb. timers (run cfg (seqEvents r0 ops) init) h = Some cb \<and>
               timers (run cfg (seqEvents r0 ops) init) h' = Some cb \<longrightarrow> h = h')"
proof -
  have q: "quiet (run cfg (seqEvents r0 ops) init)" by (rule quiet_seq)
  then have a: "timers (run cfg (seqEvents r0 ops) init) h = Some cb \<longleftrightarrow>
      handleOf cb (run cfg (seqEvents r0 ops) init) = Some h" for h cb
    by (simp add: quiet_def tracked_def)
  have b: "h = h'" if "timers (run cfg (seqEvents r0 ops) init) h = Some cb"
      and "timers (run cfg (seqEvents r0 ops) init) h' = Some cb" for h h' cb
    using that a by simp
  have c: "inflight (forceReRegister (forceReRegister s)) =
      inflight s @ [RegisterReq Other, RegisterReq Other]"
    by (simp add: forceReRegister_fields)
  have d: "timers (startHeartbeat s) = (timers s)(nextHandle s \<mapsto> SendHeartbeatCb)"
    by (simp add: startHeartbeat_def setInterval_def)
  have i: "inflight (run cfg (seqEvents r0 ops) init) = []"
    using q by (simp add: quiet_def)
  have b': "\<forall>h h' cb. timers (run cfg (seqEvents r0 ops) init) h = Some cb \<and>
      timers (run cfg (seqEvents r0 ops) init) h' = Some cb \<longrightarrow> h = h'"
    using b by blast
  have a': "\<forall>h cb. timers (run cfg (seqEvents r0 ops) init) h = Some cb \<longleftrightarrow>
      handleOf cb (run cfg (seqEvents r0 ops) init) = Some h"
    using a by blast
  show ?thesis using c d i a' b' by (intro conjI)
qed

theorem sequential_runs_track_timers_witness:
  "timers (run exampleConfig (seqEvents okResponse [TickOp 0 (HttpResponse 404 None) okResponse]) init)
     (Suc (Suc 0)) = Some SendHeartbeatCb \<and>
   handleOf SendHeartbeatCb
     (run exampleConfig (seqEvents okResponse [TickOp 0 (HttpResponse 404 None) okResponse]) init) =
     Some (Suc (Suc 0)) \<and>
   timers (run exampleConfig (seqEvents okResponse [TickOp 0 (HttpResponse 404 None) okResponse]) init)
     0 = None"
  using sequential_runs_track_timers[of exampleRegistered exampleConfig okResponse
      "[TickOp 0 (HttpResponse 404 None) okResponse]"]
  by (simp add: segment_defs seqEvents_def handleOf_def okResponse_def init_def exampleConfig_def
      Let_def)

subsection \<open>C7: when consecutiveFailures is reset\<close>

text \<open>
  C7 says that \<^verbatim>\<open>consecutiveFailures\<close> is 0 after every completion of
  \<^verbatim>\<open>attemptRegistration\<close> that ends registered. The success branch of
  \<^verbatim>\<open>attemptRegistration\<close> does not touch the counter. When a heartbeat is in flight while
  a health check forces re-registration and the heartbeat then fails, the counter is 1
  while the agent is unregistered, and it is still 1 right after the register call
  succeeds.
\<close>

theorem registration_keeps_failure_count_counterexample:
  "\<not> registered (run exampleConfig (butlast overlapTrace) init) \<and>
   inflight (run exampleConfig (butlast overlapTrace) init) = [RegisterReq Other] \<and>
   last overlapTrace = Complete 0 okResponse \<and>
   registered (run exampleConfig overlapTrace init) \<and>
   consecutiveFailures (run exampleConfig overlapTrace init) = 1"
  by (simp add: segment_defs overlapTrace_def okResponse_def init_def exampleConfig_def Let_def)

text \<open>
  C7, as the code has it. \<^verbatim>\<open>consecutiveFailures\<close> is 0 after a heartbeat answered 2xx
  and after \<^verbatim>\<open>forceReRegister\<close>. The completion of a register call leaves the counter as
  it was; so it is 0 after a forced re-registration whose register call completes next, and
  after the first registration.
\<close>

theorem failure_counter_resets:
  "(ok status \<longrightarrow> consecutiveFailures (sendHeartbeatResume (HttpResponse status body) s) = 0) \<and>
   consecutiveFailures (forceReRegister s) = 0 \<and>
   consecutiveFailures (attemptRegistrationResume c r s) = consecutiveFailures s \<and>
   consecutiveFailures (step cfg (Complete (length (inflight s)) r) (forceReRegister s)) = 0 \<and>
   consecutiveFailures (run cfg [ModuleInit, Complete 0 r] init) = 0"
proof -
  have keep: "consecutiveFailures (attemptRegistrationResume c r u) = consecutiveFailures u" for c r u
    by (simp add: attemptRegistrationResume_def startHeartbeat_def startHealthCheck_def
        setInterval_def clearInterval_def Let_def split: sum.splits option.splits)
  have hb: "ok status \<longrightarrow> consecutiveFailures (sendHeartbeatResume (HttpResponse status body) s) = 0"
    by (simp add: sendHeartbeatResume_def)
  have forced: "consecutiveFailures (step cfg (Complete (length (inflight s)) r) (forceReRegister s)) = 0"
    by (simp add: step_def forceReRegister_def attemptRegistration_def fetch_def clearInterval_def
        keep Let_def split: option.splits)
  have first: "consecutiveFailures (run cfg [ModuleInit, Complete 0 r] init) = 0"
    by (simp add: step_def onModuleInit_def attemptRegistration_def fetch_def keep init_def Let_def)
  show ?thesis using keep hb forced first by (simp add: forceReRegister_fields)
qed

theorem failure_counter_resets_witness:
  "ok 204 \<and>
   consecutiveFailures
     (sendHeartbeatResume (HttpResponse 204 None) (exampleRegistered\<lparr>consecutiveFailures := 2\<rparr>)) = 0"
  using failure_counter_resets[of 204 None "exampleRegistered\<lparr>consecutiveFailures := 2\<rparr>"]
  by (simp add: ok_def)

subsection \<open>C8: retrying until registered\<close>

text \<open>
  C8. Starting unregistered and not retrying, \<^verbatim>\<open>attemptRegistration\<close> issues a register
  call; when it fails, \<^verbatim>\<open>isRetrying\<close> is true and a retry timer is live and held. A tick
  of that timer issues a register call; when this one fails too the state is unchanged (no
  second retry timer). When a later retry tick's register call succeeds, \<^verbatim>\<open>registered\<close>
  is true, \<^verbatim>\<open>isRetrying\<close> is false, the retry timer is cleared and a heartbeat timer is
  live and held. A retry tick that fires while \<^verbatim>\<open>registered\<close> is true changes nothing.
\<close>

theorem retry_until_registered:
  assumes "\<not> registered s" and "\<not> isRetrying s" and "n = length (inflight s)"
    and "registerResume rf = Inl e" and "registerResume rf' = Inl e'"
    and "registerResume rk = Inr ()"
  shows "(let s0 = attemptRegistration c s;
              s1 = step cfg (Complete n rf) s0;
              t = nextHandle s;
              s2 = run cfg [Tick t, Complete n rf'] s1;
              s3 = run cfg [Tick t, Complete n rk] s2
          in inflight s0 = inflight s @ [RegisterReq c] \<and>
             \<not> registered s1 \<and> isRetrying s1 \<and> retryTimer s1 = Some t \<and>
             timers s1 t = Some RetryCb \<and>
             inflight (step cfg (Tick t) s1) = inflight s @ [RegisterReq Other] \<and>
             s2 = s1 \<and>
             registered s3 \<and> \<not> isRetrying s3 \<and> retryTimer s3 = None \<and> timers s3 t = None \<and>
             heartbeatTimer s3 = Some (nextHandle s1) \<and>
             timers s3 (nextHandle s1) = Some SendHeartbeatCb) \<and>
         (registered u \<and> timers u h = Some RetryCb \<longrightarrow> step cfg (Tick h) u = u)"
proof -
  let ?s1 = "attemptRegistrationResume c rf s"
  note f = resume_failure_arms[OF assms(2,4), of c]
  have a0: "attemptRegistration c s = fetch (RegisterReq c) s"
    using assms(1) by (simp add: attemptRegistration_def)
  have a1: "step cfg (Complete n rf) (fetch (RegisterReq c) s) = ?s1"
    using complete_fetch[of cfg s rf "RegisterReq c"] assms(3) by simp
  have n1: "n = length (inflight ?s1)" using f(5) assms(3) by simp
  have tick: "step cfg (Tick (nextHandle s)) ?s1 = fetch (RegisterReq Other) ?s1"
    using f(1,4) by (simp add: step_def retryTick_def attemptRegistration_def)
  have a2: "run cfg [Tick (nextHandle s), Complete n r] ?s1 = attemptRegistrationResume Other r ?s1"
    for r
    using complete_fetch[of cfg ?s1 r "RegisterReq Other"] n1 by (simp add: tick)
  have s2: "run cfg [Tick (nextHandle s), Complete n rf'] ?s1 = ?s1"
    using a2[of rf'] resume_failure_retrying[OF f(2,1) assms(5)] by simp
  note k = resume_success[OF assms(6), of ?s1]
  have cleared: "timers (attemptRegistrationResume Other rk ?s1) (nextHandle s) = None"
    using k(6)[OF f(3)] f(6) by simp
  have idle: "registered u \<and> timers u h = Some RetryCb \<longrightarrow> step cfg (Tick h) u = u"
    by (simp add: step_def retryTick_def)
  show ?thesis
    unfolding Let_def a0 a1 s2 a2[of rk]
    using f k cleared idle tick by (simp add: fetch_def)
qed

theorem retry_until_registered_witness:
  "\<not> registered init \<and> \<not> isRetrying init \<and>
   registerResume (HttpResponse 500 None) = Inl (HttpError 500) \<and>
   registerResume FetchError = Inl NetworkError \<and>
   registerResume okResponse = Inr () \<and>
   isRetrying (run exampleConfig [ModuleInit, Complete 0 (HttpResponse 500 None)] init) \<and>
   timers (run exampleConfig [ModuleInit, Complete 0 (HttpResponse 500 None)] init) 0 =
     Some RetryCb \<and>
   registered (run exampleConfig
     [ModuleInit, Complete 0 (HttpResponse 500 None), Tick 0, Complete 0 FetchError,
      Tick 0, Complete 0 okResponse] init) \<and>
   timers (run exampleConfig
     [ModuleInit, Complete 0 (HttpResponse 500 None), Tick 0, Complete 0 FetchError,
      Tick 0, Complete 0 okResponse] init) 0 = None \<and>
   registered exampleRegistered \<and>
   step exampleConfig (Tick 0) (exampleRegistered\<lparr>timers := [0 \<mapsto> RetryCb]\<rparr>) =
     exampleRegistered\<lparr>timers := [0 \<mapsto> RetryCb]\<rparr>"
  using retry_until_registered[where s = init and n = 0 and rf = "HttpResponse 500 None"
      and e = "HttpError 500" and rf' = FetchError and e' = NetworkError and rk = okResponse
      and u = "exampleRegistered\<lparr>timers := [0 \<mapsto> RetryCb]\<rparr>" and h = 0 and c = FromInit
      and cfg = exampleConfig]
  by (simp add: segment_defs okResponse_def init_def exampleConfig_def exampleRegistered_def
      Let_def)

subsection \<open>C9: a heartbeat tick while unregistered\<close>

text \<open>
  C9. A heartbeat timer that fires while \<^verbatim>\<open>registered\<close> is false issues no heartbeat
  POST: the callback is \<^verbatim>\<open>attemptRegistration\<close>, which puts a register call in flight.
  \<^verbatim>\<open>attemptRegistration\<close> itself changes nothing and issues no call when \<^verbatim>\<open>registered\<close>
  is true.
\<close>

theorem heartbeat_tick_when_unregistered:
  "(\<not> registered s \<and> timers s h = Some SendHeartbeatCb \<longrightarrow>
      step cfg (Tick h) s = attemptRegistration Other s \<and>
      inflight (step cfg (Tick h) s) = inflight s @ [RegisterReq Other]) \<and>
   (registered s \<longrightarrow> attemptRegistration c s = s)"
  by (simp add: step_def sendHeartbeat_def attemptRegistration_def fetch_def)

theorem heartbeat_tick_when_unregistered_witness:
  "\<not> registered (exampleRegistered\<lparr>registered := False\<rparr>) \<and>
   timers (exampleRegistered\<lparr>registered := False\<rparr>) 0 = Some SendHeartbeatCb \<and>
   inflight (step exampleConfig (Tick 0) (exampleRegistered\<lparr>registered := False\<rparr>)) =
     [RegisterReq Other] \<and>
   registered exampleRegistered \<and>
   attemptRegistration Other exampleRegistered = exampleRegistered"
  using heartbeat_tick_when_unregistered[of "exampleRegistered\<lparr>registered := False\<rparr>" 0
      exampleConfig Other]
    heartbeat_tick_when_unregistered[of exampleRegistered 0 exampleConfig Other]
  by (simp add: segment_defs exampleRegistered_def)

subsection \<open>C10: bodies of a health check that are not instance lists\<close>

text \<open>
  C10 says that every 2xx JSON body that is neither an array nor an object with an
  \<^verbatim>\<open>instances\<close> array counts as an empty list and forces re-registration. The body
  \<^verbatim>\<open>{"instances": 1}\<close> is such a body, and the code leaves the state unchanged:
  \<^verbatim>\<open>data?.instances || []\<close> is the number 1, which has no \<^verbatim>\<open>some\<close>, and the TypeError
  is caught.
\<close>

theorem truthy_non_array_instances_counterexample:
  "registered exampleRegistered \<and>
   timers exampleRegistered (Suc 0) = Some VerifyRegistrationCb \<and>
   run exampleConfig
     [Tick (Suc 0), Complete 0 (HttpResponse 200 (Some (JObj [(''instances'', JNum 1)])))]
     exampleRegistered = exampleRegistered \<and>
   run exampleConfig
     [Tick (Suc 0), Complete 0 (HttpResponse 200 (Some (JObj [(''instances'', JNum 1)])))]
     exampleRegistered \<noteq> forceReRegister exampleRegistered"
proof -
  have e: "run exampleConfig
     [Tick (Suc 0), Complete 0 (HttpResponse 200 (Some (JObj [(''instances'', JNum 1)])))]
     exampleRegistered = exampleRegistered"
    by (simp add: segment_defs exampleRegistered_def Let_def)
  have r: "registered exampleRegistered" "timers exampleRegistered (Suc 0) = Some VerifyRegistrationCb"
    by (simp_all add: exampleRegistered_def)
  have "registered exampleRegistered \<noteq> registered (forceReRegister exampleRegistered)"
    using r by (simp add: forceReRegister_fields)
  then have "exampleRegistered \<noteq> forceReRegister exampleRegistered" by metis
  then show ?thesis using e r by simp
qed

text \<open>
  C10, as the code has it. On a health-check tick with a 2xx response while registered: a
  JSON body that is not an array and whose \<^verbatim>\<open>instances\<close> property is missing or falsy
  (\<^verbatim>\<open>{}\<close>, \<^verbatim>\<open>null\<close>, a number, a string) counts as an empty list and forces
  re-registration: \<^verbatim>\<open>registered\<close> and \<^verbatim>\<open>isRetrying\<close> are false, the counter is 0,
  the heartbeat handle is cleared and its timer is no longer live, and a register call has
  been issued and is in flight. A body that is not an array and whose \<^verbatim>\<open>instances\<close> is
  truthy but not an array throws inside the handler, is caught, and changes nothing: the
  agent is still registered and no call was issued. A body that is not JSON throws, is
  caught, and changes nothing either.
\<close>

theorem health_check_body_shapes:
  assumes "registered s" and "timers s h = Some VerifyRegistrationCb" and "n = length (inflight s)"
    and "ok status"
  shows "((\<forall>xs. data \<noteq> JArr xs) \<and>
          (case getProp data ''instances'' of None \<Rightarrow> True | Some v \<Rightarrow> \<not> truthy v)
            \<longrightarrow> (let s' = run cfg [Tick h, Complete n (HttpResponse status (Some data))] s
                 in s' = forceReRegister s \<and>
                    \<not> registered s' \<and> \<not> isRetrying s' \<and> consecutiveFailures s' = 0 \<and>
                    heartbeatTimer s' = None \<and>
                    (\<forall>h'. heartbeatTimer s = Some h' \<longrightarrow> timers s' h' = None) \<and>
                    inflight s' = inflight s @ [RegisterReq Other] \<and>
                    s' \<noteq> s)) \<and>
         ((\<forall>xs. data \<noteq> JArr xs) \<and> getProp data ''instances'' = Some v \<and> truthy v \<and>
          (\<forall>xs. v \<noteq> JArr xs)
            \<longrightarrow> (let s' = run cfg [Tick h, Complete n (HttpResponse status (Some data))] s
                 in s' = s \<and> registered s' \<and> inflight s' = inflight s)) \<and>
         (let s' = run cfg [Tick h, Complete n (HttpResponse status None)] s
          in s' = s \<and> registered s' \<and> inflight s' = inflight s)"
proof -
  have t: "step cfg (Tick h) s = fetch VerifyReq s"
    using assms by (simp add: step_def verifyRegistration_def)
  have c: "run cfg [Tick h, Complete n r] s = verifyRegistrationResume cfg r s" for r
    using complete_fetch[of cfg s r VerifyReq] assms(3) by (simp add: t)
  have empty: "verifyRegistrationResume cfg (HttpResponse status (Some data)) s = forceReRegister s"
    if "\<forall>xs. data \<noteq> JArr xs"
      and "case getProp data ''instances'' of None \<Rightarrow> True | Some v \<Rightarrow> \<not> truthy v"
    using that assms(4)
    by (auto simp: verifyRegistrationResume_def rawInstances_def someInstance_def
        split: json.splits option.splits)
  have thrown: "verifyRegistrationResume cfg (HttpResponse status (Some data)) s = s"
    if "\<forall>xs. data \<noteq> JArr xs" and "getProp data ''instances'' = Some v" and "truthy v"
      and "\<forall>xs. v \<noteq> JArr xs"
    using that assms(4)
    by (auto simp: verifyRegistrationResume_def rawInstances_def someInstance_def
        split: json.splits option.splits)
  have unparsed: "verifyRegistrationResume cfg (HttpResponse status None) s = s"
    using assms(4) by (simp add: verifyRegistrationResume_def)
  have differs: "forceReRegister s \<noteq> s"
  proof
    assume "forceReRegister s = s"
    then have "registered (forceReRegister s) = registered s" by simp
    then show False using assms(1) by (simp add: forceReRegister_fields)
  qed
  show ?thesis
    unfolding c Let_def
    using empty thrown unparsed differs assms(1)
    by (simp add: forceReRegister_fields)
qed

theorem health_check_body_shapes_witness:
  "registered exampleRegistered \<and> timers exampleRegistered (Suc 0) = Some VerifyRegistrationCb \<and>
   ok 200 \<and>
   run exampleConfig [Tick (Suc 0), Complete 0 (HttpResponse 200 (Some (JObj [])))] exampleRegistered =
     forceReRegister exampleRegistered \<and>
   \<not> registered
       (run exampleConfig [Tick (Suc 0), Complete 0 (HttpResponse 200 (Some (JObj [])))]
          exampleRegistered) \<and>
   timers
     (run exampleConfig [Tick (Suc 0), Complete 0 (HttpResponse 200 (Some (JObj [])))]
        exampleRegistered) 0 = None \<and>
   inflight
     (run exampleConfig [Tick (Suc 0), Complete 0 (HttpResponse 200 (Some (JObj [])))]
        exampleRegistered) = [RegisterReq Other] \<and>
   run exampleConfig [Tick (Suc 0), Complete 0 (HttpResponse 200 (Some JNull))] exampleRegistered =
     forceReRegister exampleRegistered \<and>
   \<not> registered
       (run exampleConfig [Tick (Suc 0), Complete 0 (HttpResponse 200 (Some JNull))]
          exampleRegistered) \<and>
   run exampleConfig
     [Tick (Suc 0), Complete 0 (HttpResponse 200 (Some (JObj [(''instances'', JStr ''none'')])))]
     exampleRegistered = exampleRegistered \<and>
   registered
     (run exampleConfig
        [Tick (Suc 0), Complete 0 (HttpResponse 200 (Some (JObj [(''instances'', JStr ''none'')])))]
        exampleRegistered) \<and>
   run exampleConfig [Tick (Suc 0), Complete 0 (HttpResponse 200 None)] exampleRegistered =
     exampleRegistered"
proof -
  have h: "registered exampleRegistered"
      "timers exampleRegistered (Suc 0) = Some VerifyRegistrationCb"
      "0 = length (inflight exampleRegistered)" "ok 200"
    by (simp_all add: exampleRegistered_def ok_def)
  have e: "inflight exampleRegistered = []" "heartbeatTimer exampleRegistered = Some 0"
    by (simp_all add: exampleRegistered_def)
  show ?thesis
    using h(1,2,4)
      health_check_body_shapes[OF h, of "JObj []" exampleConfig JNull]
      health_check_body_shapes[OF h, of JNull exampleConfig JNull]
      health_check_body_shapes[OF h, of "JObj [(''instances'', JStr ''none'')]" exampleConfig
        "JStr ''none''"]
    by (simp (no_asm_use) del: run.simps add: e Let_def) blast
qed

end
